theory Spec2Isabelle
  imports Complex_Main
begin

section \<open>SQL values\<close>

text \<open>
  The derivation engine, the activity logger and the customer rollup are PL/pgSQL trigger
  functions. A nullable column is an \<open>option\<close> (\<open>None\<close> is NULL), a comparison has three
  truth values (\<open>bool option\<close>), and \<open>IF\<close> and \<open>WHERE\<close> take a branch or a row only when
  their condition is TRUE. \<open>numeric\<close> values are exact rationals; a \<open>timestamp with time
  zone\<close> is a number of microseconds.
\<close>

type_synonym numeric = rat
type_synonym timestamptz = int
type_synonym uuid = nat

definition sql_eq :: "'a option \<Rightarrow> 'a option \<Rightarrow> bool option" where
  "sql_eq a b = (case (a, b) of (Some x, Some y) \<Rightarrow> Some (x = y) | _ \<Rightarrow> None)"

definition sql_ne :: "'a option \<Rightarrow> 'a option \<Rightarrow> bool option" where
  "sql_ne a b = (case (a, b) of (Some x, Some y) \<Rightarrow> Some (x \<noteq> y) | _ \<Rightarrow> None)"

definition sql_and :: "bool option \<Rightarrow> bool option \<Rightarrow> bool option" where
  "sql_and a b =
     (if a = Some False \<or> b = Some False then Some False
      else if a = Some True \<and> b = Some True then Some True
      else None)"

definition sql_or :: "bool option \<Rightarrow> bool option \<Rightarrow> bool option" where
  "sql_or a b =
     (if a = Some True \<or> b = Some True then Some True
      else if a = Some False \<and> b = Some False then Some False
      else None)"

definition is_true :: "bool option \<Rightarrow> bool" where
  "is_true c \<longleftrightarrow> c = Some True"

definition coalesce :: "'a option \<Rightarrow> 'a \<Rightarrow> 'a" where
  "coalesce a d = (case a of Some x \<Rightarrow> x | None \<Rightarrow> d)"

definition num_add :: "numeric option \<Rightarrow> numeric option \<Rightarrow> numeric option" where
  "num_add a b = (case (a, b) of (Some x, Some y) \<Rightarrow> Some (x + y) | _ \<Rightarrow> None)"

definition num_sub :: "numeric option \<Rightarrow> numeric option \<Rightarrow> numeric option" where
  "num_sub a b = (case (a, b) of (Some x, Some y) \<Rightarrow> Some (x - y) | _ \<Rightarrow> None)"

definition num_mul :: "numeric option \<Rightarrow> numeric option \<Rightarrow> numeric option" where
  "num_mul a b = (case (a, b) of (Some x, Some y) \<Rightarrow> Some (x * y) | _ \<Rightarrow> None)"

text \<open>The only division of the sources divides by the literal 100.\<close>

definition num_div100 :: "numeric option \<Rightarrow> numeric option" where
  "num_div100 a = (case a of Some x \<Rightarrow> Some (x / 100) | None \<Rightarrow> None)"

section \<open>The orders table\<close>

text \<open>
  The columns of \<open>public.orders\<close> that the trigger functions read or write. The
  \<open>CREATE TABLE\<close> of orders is not among the sources; a column is nullable here exactly
  when the field of the \<open>Order\<close> interface (src/types/order.ts) is optional.
\<close>

datatype order_status =
  Draft | Pending | Approved | Processing | Shipped | Delivered | Completed | Cancelled | Refunded

record order =
  id_uuid :: uuid
  order_id :: string
  user_id :: uuid
  customer_name :: string
  customer_email :: "string option"
  order_amount :: numeric
  tax_rate :: "numeric option"
  discount_amount :: "numeric option"
  total_amount :: "numeric option"
  status :: order_status
  completed_at :: "timestamptz option"
  last_activity_at :: "timestamptz option"

datatype tg_op = INSERT | UPDATE | DELETE


text \<open>
  The errors that the statements of the sources can raise: arithmetic on an \<open>integer\<close>
  column that leaves 32 bits, and a value that does not fit a \<open>DECIMAL(15,2)\<close> column.
\<close>

datatype sql_error = IntegerOutOfRange | NumericFieldOverflow

text \<open>
  Storing into a \<open>DECIMAL(15,2)\<close> column: the value is rounded to two decimal places,
  ties away from zero, and must then have at most 13 digits before the point.
\<close>

definition round_half_away :: "rat \<Rightarrow> int" where
  "round_half_away x = (if 0 \<le> x then \<lfloor>x + 1 / 2\<rfloor> else - \<lfloor>- x + 1 / 2\<rfloor>)"

definition round2 :: "rat \<Rightarrow> rat" where
  "round2 x = of_int (round_half_away (x * 100)) / 100"

definition numeric_15_2 :: "numeric option \<Rightarrow> sql_error + numeric option" where
  "numeric_15_2 a =
     (case a of
        None \<Rightarrow> Inr None
      | Some x \<Rightarrow> if \<bar>round2 x\<bar> < 10 ^ 13 then Inr (Some (round2 x))
                  else Inl NumericFieldOverflow)"

section \<open>Derivation engine\<close>

text \<open>
  \<open>calculate_order_total\<close> (part_010, lines 4-16):
  \<^verbatim>\<open>RETURN order_amount + (order_amount * tax_rate / 100) - discount_amount;\<close>
  The precision and scale in the declared types of its arguments and of its result have
  no effect: a function keeps only the base type \<open>numeric\<close>.
\<close>

definition calculate_order_total ::
  "numeric option \<Rightarrow> numeric option \<Rightarrow> numeric option \<Rightarrow> numeric option" where
  "calculate_order_total order_amount' tax_rate' discount_amount' =
     num_sub (num_add order_amount' (num_div100 (num_mul order_amount' tax_rate')))
       discount_amount'"

text \<open>
  \<open>update_order_total\<close> (part_010, lines 19-38), the function of the trigger
  \<open>trigger_update_order_total BEFORE INSERT OR UPDATE\<close>. \<open>now\<close> is the value of \<open>NOW()\<close>;
  \<open>old\<close> is the row variable OLD, which is NULL when the operation is an INSERT, so that
  \<open>OLD.status\<close> is NULL there. The assignment to \<open>NEW.total_amount\<close> converts the value
  to the type of the column, \<open>total_amount DECIMAL(15,2)\<close> (src/types/order.ts, line 206).
\<close>

definition update_order_total ::
  "timestamptz \<Rightarrow> order option \<Rightarrow> order \<Rightarrow> sql_error + order" where
  "update_order_total now old new =
     (case numeric_15_2
             (calculate_order_total (Some (order_amount new))
                (Some (coalesce (tax_rate new) 0))
                (Some (coalesce (discount_amount new) 0))) of
        Inl e \<Rightarrow> Inl e
      | Inr total' \<Rightarrow>
          (let new1 = new\<lparr>total_amount := total'\<rparr>
           in Inr (if is_true (sql_and (sql_eq (Some (status new1)) (Some Completed))
                                       (sql_ne (map_option status old) (Some Completed)))
                   then new1\<lparr>completed_at := Some now\<rparr>
                   else new1)))"

text \<open>
  \<open>set_order_last_activity\<close> (part_012, lines 41-55), the function of the trigger
  \<open>set_order_last_activity_trigger BEFORE INSERT OR UPDATE\<close>.
\<close>

definition set_order_last_activity :: "tg_op \<Rightarrow> timestamptz \<Rightarrow> order \<Rightarrow> order" where
  "set_order_last_activity tg now new =
     (if tg = INSERT
      then new\<lparr>last_activity_at := Some (coalesce (last_activity_at new) now)\<rparr>
      else new\<lparr>last_activity_at := Some now\<rparr>)"

text \<open>
  The row that becomes durable, or the error that ends the write: the BEFORE row triggers
  run in the order of their names, \<open>set_order_last_activity_trigger\<close> before
  \<open>trigger_update_order_total\<close>, each on the row the previous one returned.
\<close>

definition before_row ::
  "tg_op \<Rightarrow> timestamptz \<Rightarrow> order option \<Rightarrow> order \<Rightarrow> sql_error + order" where
  "before_row tg now old new = update_order_total now old (set_order_last_activity tg now new)"

text \<open>
  One order row under a sequence of writes: the insert stores the candidate row as the
  BEFORE triggers return it; an update computes the candidate from the stored row (the
  \<open>SET\<close> list of the statement, here a function) and stores what the triggers return; a
  write that raises an error leaves the stored row as it is. \<open>row_history\<close> lists the
  stored row after each write.
\<close>

definition insert_row :: "timestamptz \<Rightarrow> order \<Rightarrow> sql_error + order" where
  "insert_row now new = before_row INSERT now None new"

definition update_row :: "timestamptz \<Rightarrow> (order \<Rightarrow> order) \<Rightarrow> order \<Rightarrow> sql_error + order" where
  "update_row now set_cols old = before_row UPDATE now (Some old) (set_cols old)"

fun row_history :: "order \<Rightarrow> (timestamptz \<times> (order \<Rightarrow> order)) list \<Rightarrow> order list" where
  "row_history r [] = [r]"
| "row_history r ((now, set_cols) # ws) =
     r # row_history (case update_row now set_cols r of Inl e \<Rightarrow> r | Inr r' \<Rightarrow> r') ws"

text \<open>
  The total of the order before any rounding:
  \<open>order_amount + order_amount * tax_rate / 100 - discount_amount\<close>, an absent tax rate or
  discount counted as 0.
\<close>

definition exact_total :: "order \<Rightarrow> rat" where
  "exact_total new =
     order_amount new + order_amount new * coalesce (tax_rate new) 0 / 100
       - coalesce (discount_amount new) 0"

text \<open>A pending order of 100.00 with no tax and no discount, used in the examples.\<close>

definition order0 :: order where
  "order0 = \<lparr>id_uuid = 1, order_id = ''ORD-001'', user_id = 7, customer_name = ''Asha'',
     customer_email = None, order_amount = 100, tax_rate = None, discount_amount = None,
     total_amount = None, status = Pending, completed_at = None, last_activity_at = None\<rparr>"

section \<open>Customer rollup\<close>

text \<open>
  The columns of \<open>public.customers\<close> (part_011, lines 5-18) that the rollup reads or
  writes. \<open>name\<close> is \<open>NOT NULL\<close>; \<open>email\<close>, \<open>total_orders integer DEFAULT 0\<close> and
  \<open>total_spent numeric DEFAULT 0.00\<close> are nullable. An \<open>integer\<close> holds 32 bits, and
  arithmetic that leaves its range raises an error instead of wrapping.
\<close>

record customer =
  cust_id :: uuid
  cust_user_id :: uuid
  name :: string
  email :: "string option"
  total_orders :: "int option"
  total_spent :: "numeric option"

definition int4 :: "int \<Rightarrow> bool" where
  "int4 i \<longleftrightarrow> - 2147483648 \<le> i \<and> i \<le> 2147483647"

definition int4_add :: "int option \<Rightarrow> int \<Rightarrow> sql_error + int option" where
  "int4_add a b =
     (case a of
        None \<Rightarrow> Inr None
      | Some x \<Rightarrow> if int4 (x + b) then Inr (Some (x + b)) else Inl IntegerOutOfRange)"

definition int4_sub :: "int option \<Rightarrow> int \<Rightarrow> sql_error + int option" where
  "int4_sub a b =
     (case a of
        None \<Rightarrow> Inr None
      | Some x \<Rightarrow> if int4 (x - b) then Inr (Some (x - b)) else Inl IntegerOutOfRange)"

text \<open>
  \<open>UPDATE t SET ... WHERE ...\<close>: every row on which the condition is TRUE is replaced
  by the row the \<open>SET\<close> list computes from it, the other rows stay, and an error in
  one row fails the statement.
\<close>

fun sql_update :: "('r \<Rightarrow> bool) \<Rightarrow> ('r \<Rightarrow> sql_error + 'r) \<Rightarrow> 'r list \<Rightarrow> sql_error + 'r list" where
  "sql_update wh st [] = Inr []"
| "sql_update wh st (r # rs) =
     (case (if wh r then st r else Inr r) of
        Inl e \<Rightarrow> Inl e
      | Inr r' \<Rightarrow> (case sql_update wh st rs of Inl e \<Rightarrow> Inl e | Inr rs' \<Rightarrow> Inr (r' # rs')))"

text \<open>
  The condition of all four statements of \<open>update_customer_stats\<close>, for the row variable
  \<open>r\<close> (NEW or OLD, NULL when the operation has none):
  \<^verbatim>\<open>WHERE user_id = r.user_id AND (name = r.customer_name OR email = r.customer_email)\<close>
\<close>

definition customer_matches :: "order option \<Rightarrow> customer \<Rightarrow> bool" where
  "customer_matches r c \<longleftrightarrow>
     is_true (sql_and (sql_eq (Some (cust_user_id c)) (map_option user_id r))
                      (sql_or (sql_eq (Some (name c)) (map_option customer_name r))
                              (sql_eq (email c) (Option.bind r customer_email))))"

text \<open>
  \<^verbatim>\<open>SET total_orders = total_orders + 1, total_spent = total_spent + NEW.order_amount\<close>
  and
  \<^verbatim>\<open>SET total_orders = total_orders - 1, total_spent = total_spent - OLD.order_amount\<close>
\<close>

definition stats_increase :: "numeric option \<Rightarrow> customer \<Rightarrow> sql_error + customer" where
  "stats_increase amount c =
     (case int4_add (total_orders c) 1 of
        Inl e \<Rightarrow> Inl e
      | Inr n \<Rightarrow> Inr (c\<lparr>total_orders := n, total_spent := num_add (total_spent c) amount\<rparr>))"

definition stats_decrease :: "numeric option \<Rightarrow> customer \<Rightarrow> sql_error + customer" where
  "stats_decrease amount c =
     (case int4_sub (total_orders c) 1 of
        Inl e \<Rightarrow> Inl e
      | Inr n \<Rightarrow> Inr (c\<lparr>total_orders := n, total_spent := num_sub (total_spent c) amount\<rparr>))"

text \<open>
  \<open>update_customer_stats\<close> (part_011, lines 51-92), on the customers table. It returns
  the table after its statements, or the error of the first statement that fails.
\<close>

definition update_customer_stats ::
  "tg_op \<Rightarrow> order option \<Rightarrow> order option \<Rightarrow> customer list \<Rightarrow> sql_error + customer list" where
  "update_customer_stats tg old new customers =
     (if tg = INSERT then
        sql_update (customer_matches new)
          (stats_increase (map_option order_amount new)) customers
      else if tg = UPDATE then
        (case sql_update (customer_matches old)
                (stats_decrease (map_option order_amount old)) customers of
           Inl e \<Rightarrow> Inl e
         | Inr customers1 \<Rightarrow>
             sql_update (customer_matches new)
               (stats_increase (map_option order_amount new)) customers1)
      else if tg = DELETE then
        sql_update (customer_matches old)
          (stats_decrease (map_option order_amount old)) customers
      else Inr customers)"

text \<open>The column type of \<open>total_orders\<close>: every stored value is a 32-bit integer.\<close>

definition customers_typed :: "customer list \<Rightarrow> bool" where
  "customers_typed customers \<longleftrightarrow>
     (\<forall>c \<in> set customers. case total_orders c of None \<Rightarrow> True | Some n \<Rightarrow> int4 n)"

text \<open>Two customers of owner 7 with the same name, and one of another owner.\<close>

definition customers0 :: "customer list" where
  "customers0 =
     [\<lparr>cust_id = 1, cust_user_id = 7, name = ''Asha'', email = None,
        total_orders = Some 2, total_spent = Some 50\<rparr>,
      \<lparr>cust_id = 2, cust_user_id = 7, name = ''Asha'', email = Some ''asha@example.com'',
        total_orders = Some 0, total_spent = Some 0\<rparr>,
      \<lparr>cust_id = 3, cust_user_id = 8, name = ''Asha'', email = None,
        total_orders = Some 5, total_spent = None\<rparr>]"

section \<open>Activity logger\<close>

text \<open>
  The columns of \<open>public.order_activities\<close> (src/types/order.ts, lines 301-310) that the
  logger fills; \<open>id\<close> and \<open>created_at\<close> take their defaults. \<open>to_jsonb\<close> of a row is the
  row itself, so a snapshot is an \<open>order\<close>, and an absent snapshot is NULL.
\<close>

record order_activity =
  act_order_id :: uuid
  act_user_id :: uuid
  activity_type :: string
  description :: string
  old_values :: "order option"
  new_values :: "order option"

text \<open>
  The statements that the trigger functions and the client issue. \<open>UpdateOrders wh st\<close>
  is \<open>UPDATE public.orders SET st WHERE wh\<close>.
\<close>

datatype stmt =
    InsertOrder order
  | UpdateOrders "order \<Rightarrow> bool" "order \<Rightarrow> order"
  | InsertActivity order_activity

text \<open>
  \<open>log_order_activity\<close> as the last migration leaves it (part_012, lines 10-33), the
  function of \<open>log_order_activity_trigger AFTER INSERT OR UPDATE\<close>: the statements it
  executes for one row.
\<close>

definition log_order_activity :: "tg_op \<Rightarrow> timestamptz \<Rightarrow> order option \<Rightarrow> order \<Rightarrow> stmt list" where
  "log_order_activity tg now old new =
     (if tg = INSERT then
        [InsertActivity \<lparr>act_order_id = id_uuid new, act_user_id = user_id new,
           activity_type = ''created'', description = ''Order created'',
           old_values = None, new_values = Some new\<rparr>]
      else if tg = UPDATE then
        [InsertActivity \<lparr>act_order_id = id_uuid new, act_user_id = user_id new,
           activity_type = ''updated'', description = ''Order updated'',
           old_values = old, new_values = Some new\<rparr>]
      else [])"

text \<open>
  \<open>log_order_activity\<close> of the migration before
  (supabase/migrations/20250921065616, lines 8-55), also an AFTER trigger: in both
  branches it first executes
  \<^verbatim>\<open>UPDATE public.orders SET last_activity_at = now() WHERE id = NEW.id;\<close>
\<close>

definition log_order_activity_20250921 ::
  "tg_op \<Rightarrow> timestamptz \<Rightarrow> order option \<Rightarrow> order \<Rightarrow> stmt list" where
  "log_order_activity_20250921 tg now old new =
     (if tg = INSERT then
        [UpdateOrders (\<lambda>r. id_uuid r = id_uuid new) (\<lambda>r. r\<lparr>last_activity_at := Some now\<rparr>),
         InsertActivity \<lparr>act_order_id = id_uuid new, act_user_id = user_id new,
           activity_type = ''created'', description = ''Order created'',
           old_values = None, new_values = Some new\<rparr>]
      else if tg = UPDATE then
        [UpdateOrders (\<lambda>r. id_uuid r = id_uuid new) (\<lambda>r. r\<lparr>last_activity_at := Some now\<rparr>),
         InsertActivity \<lparr>act_order_id = id_uuid new, act_user_id = user_id new,
           activity_type = ''updated'', description = ''Order updated'',
           old_values = old, new_values = Some new\<rparr>]
      else [])"

text \<open>
  The triggers on \<open>public.orders\<close>: the composition of the BEFORE row triggers and the
  function of the AFTER row trigger. No source creates a trigger on
  \<open>public.order_activities\<close>. Under the migration of 2025-09-21 the only BEFORE trigger
  is \<open>trigger_update_order_total\<close>.
\<close>

record triggers =
  before_triggers :: "tg_op \<Rightarrow> timestamptz \<Rightarrow> order option \<Rightarrow> order \<Rightarrow> sql_error + order"
  after_trigger :: "tg_op \<Rightarrow> timestamptz \<Rightarrow> order option \<Rightarrow> order \<Rightarrow> stmt list"

definition triggers_final :: triggers where
  "triggers_final = \<lparr>before_triggers = before_row, after_trigger = log_order_activity\<rparr>"

definition triggers_20250921 :: triggers where
  "triggers_20250921 =
     \<lparr>before_triggers = (\<lambda>tg now old new. update_order_total now old new),
      after_trigger = log_order_activity_20250921\<rparr>"

text \<open>
  The database: the two tables and, for the proofs, the list of the row triggers of
  \<open>public.orders\<close> that have fired, each with its operation and the \<open>id\<close> of its row.
  A statement ends with the database it leaves, with an error, which undoes it, or, when
  the triggers nest deeper than the bound, with the stack depth error.
\<close>

datatype firing = Before tg_op uuid | After tg_op uuid

record db =
  orders :: "order list"
  order_activities :: "order_activity list"
  fired :: "firing list"

datatype outcome = StackDepthExceeded | Raised sql_error | Done db

fun run_all :: "('a \<Rightarrow> db \<Rightarrow> outcome) \<Rightarrow> 'a list \<Rightarrow> db \<Rightarrow> outcome" where
  "run_all ex [] d = Done d"
| "run_all ex (x # xs) d =
     (case ex x d of
        StackDepthExceeded \<Rightarrow> StackDepthExceeded
      | Raised e \<Rightarrow> Raised e
      | Done d' \<Rightarrow> run_all ex xs d')"

text \<open>
  The rows of \<open>public.orders\<close> after an \<open>UPDATE\<close>, each with the row it replaces (NULL
  for a row the statement does not touch): a row that satisfies the condition passes the
  BEFORE triggers with its \<open>SET\<close> list applied, and an error in one row fails the
  statement. The affected rows are those replaced.
\<close>

fun written_rows ::
  "triggers \<Rightarrow> timestamptz \<Rightarrow> (order \<Rightarrow> bool) \<Rightarrow> (order \<Rightarrow> order) \<Rightarrow> order list
     \<Rightarrow> sql_error + (order option \<times> order) list" where
  "written_rows tr now wh st [] = Inr []"
| "written_rows tr now wh st (r # rs) =
     (case (if wh r
            then (case before_triggers tr UPDATE now (Some r) (st r) of
                    Inl e \<Rightarrow> Inl e
                  | Inr new' \<Rightarrow> Inr (Some r, new'))
            else Inr (None, r)) of
        Inl e \<Rightarrow> Inl e
      | Inr w \<Rightarrow>
          (case written_rows tr now wh st rs of
             Inl e \<Rightarrow> Inl e
           | Inr ws \<Rightarrow> Inr (w # ws)))"

definition affected_rows :: "(order option \<times> order) list \<Rightarrow> (order option \<times> order) list" where
  "affected_rows written = filter (\<lambda>(old, new'). old \<noteq> None) written"

text \<open>
  Executing a statement. On \<open>public.orders\<close> each written row passes the BEFORE triggers
  and is stored; when the statement has written its rows, the AFTER trigger runs for each
  of them and its statements are executed in turn, which fires the triggers again. The
  first argument bounds the depth of this nesting. \<open>now()\<close> is the same in the whole
  transaction.
\<close>

fun exec :: "triggers \<Rightarrow> nat \<Rightarrow> timestamptz \<Rightarrow> stmt \<Rightarrow> db \<Rightarrow> outcome" where
  "exec tr 0 now s d = StackDepthExceeded"
| "exec tr (Suc k) now (InsertActivity a) d =
     Done (d\<lparr>order_activities := order_activities d @ [a]\<rparr>)"
| "exec tr (Suc k) now (InsertOrder new) d =
     (case before_triggers tr INSERT now None new of
        Inl e \<Rightarrow> Raised e
      | Inr row \<Rightarrow>
          (let d1 = d\<lparr>orders := orders d @ [row],
                      fired := fired d @ [Before INSERT (id_uuid row)]\<rparr>
           in run_all
                (\<lambda>(old, new') d'.
                   run_all (\<lambda>s d''. exec tr k now s d'')
                     (after_trigger tr INSERT now old new')
                     (d'\<lparr>fired := fired d' @ [After INSERT (id_uuid new')]\<rparr>))
                [(None, row)] d1))"
| "exec tr (Suc k) now (UpdateOrders wh st) d =
     (case written_rows tr now wh st (orders d) of
        Inl e \<Rightarrow> Raised e
      | Inr written \<Rightarrow>
          (let d1 = d\<lparr>orders := map snd written,
                      fired := fired d @
                        map (\<lambda>(old, new'). Before UPDATE (id_uuid new'))
                          (affected_rows written)\<rparr>
           in run_all
                (\<lambda>(old, new') d'.
                   run_all (\<lambda>s d''. exec tr k now s d'')
                     (after_trigger tr UPDATE now old new')
                     (d'\<lparr>fired := fired d' @ [After UPDATE (id_uuid new')]\<rparr>))
                (affected_rows written) d1))"


section \<open>The client: orders held by the page\<close>

text \<open>
  The fields of the interface \<open>Order\<close> (src/types/order.ts, lines 5-28) that the
  functions below read. A JavaScript number is taken as a rational; \<open>orderStatus\<close> is
  the field \<open>status\<close> and \<open>orderNotes\<close> the field \<open>notes\<close>. The type of \<open>orderDate\<close> is a parameter: the string of the
  interface where it is only copied, the local time it denotes where it is parsed.
\<close>

record 'd Order =
  orderId :: string
  customerName :: string
  customerEmail :: "string option"
  orderAmount :: rat
  totalAmount :: "rat option"
  orderDate :: 'd
  dueDate :: "string option"
  orderStatus :: string
  priority :: "string option"
  orderNotes :: "string option"

text \<open>\<open>String(n)\<close> for a natural number, and \<open>padStart\<close>.\<close>

fun string_of_nat :: "nat \<Rightarrow> string" where
  "string_of_nat n =
     (if n < 10 then [char_of (48 + n)]
      else string_of_nat (n div 10) @ [char_of (48 + n mod 10)])"

declare string_of_nat.simps [simp del]

definition padStart :: "nat \<Rightarrow> char \<Rightarrow> string \<Rightarrow> string" where
  "padStart n c s = replicate (n - length s) c @ s"

text \<open>
  \<open>createOrder\<close> and \<open>deleteOrder\<close> of the hook \<open>useOrders\<close> (part_009, lines 87-194), on
  the list \<open>orders\<close> that the hook holds. The reply of the database to the insert is an
  argument: an error, or the stored row, of which the hook reads \<open>order_id\<close>,
  \<open>customer_name\<close>, \<open>order_amount\<close>, \<open>order_date\<close> and \<open>status\<close>. The database stores
  the \<open>order_id\<close> it is sent. The upload of the invoice file is left out.
\<close>

record CreateOrderRequest =
  req_customerName :: string
  req_orderAmount :: rat

datatype 'd insert_reply = InsertError | Inserted 'd string

definition next_orderId :: "'d Order list \<Rightarrow> string" where
  "next_orderId orders' =
     (let orderCount = length orders'
      in ''ORD-'' @ padStart 3 (CHR ''0'') (string_of_nat (orderCount + 1)))"

definition createOrder ::
  "uuid option \<Rightarrow> 'd insert_reply \<Rightarrow> CreateOrderRequest \<Rightarrow> 'd Order list
     \<Rightarrow> 'd Order option \<times> 'd Order list" where
  "createOrder user reply orderRequest orders' =
     (case user of
        None \<Rightarrow> (None, orders')
      | Some u \<Rightarrow>
          (case reply of
             InsertError \<Rightarrow> (None, orders')
           | Inserted order_date status' \<Rightarrow>
               (let newOrder = \<lparr>orderId = next_orderId orders',
                                customerName = req_customerName orderRequest,
                                customerEmail = None,
                                orderAmount = req_orderAmount orderRequest,
                                totalAmount = None, orderDate = order_date,
                                dueDate = None, orderStatus = status',
                                priority = None, orderNotes = None\<rparr>
                in (Some newOrder, newOrder # orders'))))"

definition deleteOrder :: "string \<Rightarrow> 'd Order list \<Rightarrow> 'd Order list" where
  "deleteOrder orderId' orders' = filter (\<lambda>order'. orderId order' \<noteq> orderId') orders'"

definition request0 :: CreateOrderRequest where
  "request0 = \<lparr>req_customerName = ''Asha'', req_orderAmount = 100\<rparr>"

section \<open>Export\<close>

text \<open>
  \<open>handleExport\<close> of \<open>ExportMenu\<close> (part_006, lines 61-82): the calls it makes to the
  callback \<open>onExport\<close> and the title of the toast it shows. No component of the
  repository passes an \<open>onExport\<close> to \<open>ExportMenu\<close>, and nothing reads \<open>columns\<close>.
\<close>

datatype export_format = Csv | Excel | Pdf






definition or_number :: "rat option \<Rightarrow> rat \<Rightarrow> rat" where
  "or_number a b = (case a of None \<Rightarrow> b | Some x \<Rightarrow> if x = 0 then b else x)"









section \<open>Analytics: the daily series\<close>

text \<open>
  A \<open>Date\<close> as the local calendar shows it: the date and the time of day in
  milliseconds. \<open>subDays\<close> and \<open>format\<close> are those of date-fns: \<open>subDays\<close> sets the day
  of the month back and keeps the time of day, and the pattern \<open>MMM dd\<close> gives the short
  name of the month and the day of the month in two digits. Two dates compare as their
  local fields do, which is their order in time while the offset of the time zone does
  not change.
\<close>

record local_time =
  year :: int
  month :: nat
  day :: nat
  ms_of_day :: nat

definition leap_year :: "int \<Rightarrow> bool" where
  "leap_year y \<longleftrightarrow> y mod 4 = 0 \<and> (y mod 100 \<noteq> 0 \<or> y mod 400 = 0)"

definition days_in_month :: "int \<Rightarrow> nat \<Rightarrow> nat" where
  "days_in_month y m =
     (if m = 2 then (if leap_year y then 29 else 28)
      else if m = 4 \<or> m = 6 \<or> m = 9 \<or> m = 11 then 30
      else 31)"

definition prev_day :: "local_time \<Rightarrow> local_time" where
  "prev_day t =
     (if 1 < day t then t\<lparr>day := day t - 1\<rparr>
      else if 1 < month t
        then t\<lparr>month := month t - 1, day := days_in_month (year t) (month t - 1)\<rparr>
      else t\<lparr>year := year t - 1, month := 12, day := 31\<rparr>)"

fun subDays :: "local_time \<Rightarrow> nat \<Rightarrow> local_time" where
  "subDays t 0 = t"
| "subDays t (Suc n) = prev_day (subDays t n)"

definition time_ge :: "local_time \<Rightarrow> local_time \<Rightarrow> bool" where
  "time_ge a b \<longleftrightarrow>
     year a > year b \<or> (year a = year b \<and>
       (month a > month b \<or> (month a = month b \<and>
          (day a > day b \<or> (day a = day b \<and> ms_of_day a \<ge> ms_of_day b)))))"

definition month_abbr :: "nat \<Rightarrow> string" where
  "month_abbr m =
     [''Jan'', ''Feb'', ''Mar'', ''Apr'', ''May'', ''Jun'',
      ''Jul'', ''Aug'', ''Sep'', ''Oct'', ''Nov'', ''Dec''] ! (m - 1)"

definition format_MMM_dd :: "local_time \<Rightarrow> string" where
  "format_MMM_dd t = month_abbr (month t) @ '' '' @ padStart 2 (CHR ''0'') (string_of_nat (day t))"

text \<open>
  A JavaScript object with string keys that are not numbers: its entries in the order
  in which the keys were first set. Setting a key that exists keeps its place.
\<close>

fun obj_set :: "string \<Rightarrow> 'v \<Rightarrow> (string \<times> 'v) list \<Rightarrow> (string \<times> 'v) list" where
  "obj_set k v [] = [(k, v)]"
| "obj_set k v ((k', v') # kvs) =
     (if k' = k then (k, v) # kvs else (k', v') # obj_set k v kvs)"

text \<open>
  The daily series of \<open>calculateAnalytics\<close> (part_000, lines 41-48 and 91-109). An entry
  of \<open>dailyData\<close> is \<open>{revenue, orders}\<close>; \<open>order_count\<close> is its field \<open>orders\<close>.
\<close>

record bucket =
  revenue :: rat
  order_count :: nat

definition daysBack_of :: "string \<Rightarrow> nat" where
  "daysBack_of dateRange = (if dateRange = ''7d'' then 7 else if dateRange = ''30d'' then 30 else 90)"

definition filteredOrders :: "local_time \<Rightarrow> nat \<Rightarrow> local_time Order list \<Rightarrow> local_time Order list" where
  "filteredOrders now daysBack orders' =
     (let startDate = subDays now daysBack
      in filter (\<lambda>order'. time_ge (orderDate order') startDate) orders')"

definition dailyData_init :: "local_time \<Rightarrow> nat \<Rightarrow> (string \<times> bucket) list" where
  "dailyData_init now daysBack =
     fold (\<lambda>i dailyData.
             obj_set (format_MMM_dd (subDays now i)) \<lparr>revenue = 0, order_count = 0\<rparr> dailyData)
       [0..<daysBack] []"

definition dailyData_add :: "local_time Order \<Rightarrow> (string \<times> bucket) list \<Rightarrow> (string \<times> bucket) list" where
  "dailyData_add order' dailyData =
     (let dateStr = format_MMM_dd (orderDate order')
      in case map_of dailyData dateStr of
           None \<Rightarrow> dailyData
         | Some b \<Rightarrow>
             obj_set dateStr
               (b\<lparr>revenue := revenue b + or_number (totalAmount order') (orderAmount order'),
                  order_count := order_count b + 1\<rparr>) dailyData)"

definition dailyRevenue :: "string \<Rightarrow> local_time \<Rightarrow> local_time Order list \<Rightarrow> (string \<times> bucket) list" where
  "dailyRevenue dateRange now orders' =
     (let daysBack = daysBack_of dateRange
      in rev (fold dailyData_add (filteredOrders now daysBack orders')
                (dailyData_init now daysBack)))"

text \<open>
  A calendar date: the month is between 1 and 12 and the day exists in that month.
  \<open>date_rank\<close> orders such dates as the calendar does (lemma \<open>date_rank_less_iff\<close>).
\<close>

definition valid_date :: "local_time \<Rightarrow> bool" where
  "valid_date t \<longleftrightarrow> 1 \<le> month t \<and> month t \<le> 12 \<and> 1 \<le> day t \<and> day t \<le> days_in_month (year t) (month t)"

definition date_rank :: "local_time \<Rightarrow> int" where
  "date_rank t = year t * 372 + int (month t) * 31 + int (day t)"

text \<open>Noon of 3 November 2026, and an order of 250 dated 3 November 2027 at 9:00.\<close>

definition now0 :: local_time where
  "now0 = \<lparr>year = 2026, month = 11, day = 3, ms_of_day = 43200000\<rparr>"

definition next_year_order :: "local_time Order" where
  "next_year_order = \<lparr>orderId = ''ORD-001'', customerName = ''Asha'', customerEmail = None,
     orderAmount = 250, totalAmount = None,
     orderDate = \<lparr>year = 2027, month = 11, day = 3, ms_of_day = 32400000\<rparr>,
     dueDate = None, orderStatus = ''pending'', priority = None, orderNotes = None\<rparr>"

section \<open>Properties\<close>

subsection \<open>Derivation engine: the total\<close>

lemma update_order_total_eq:
  "update_order_total now old new =
     (if \<bar>round2 (exact_total new)\<bar> < 10 ^ 13
      then Inr (new\<lparr>total_amount := Some (round2 (exact_total new)),
                    completed_at :=
                      if status new = Completed \<and> (\<exists>r. old = Some r \<and> status r \<noteq> Completed)
                      then Some now else completed_at new\<rparr>)
      else Inl NumericFieldOverflow)"
  by (cases old)
     (simp_all add: update_order_total_def Let_def calculate_order_total_def num_sub_def
        num_add_def num_mul_def num_div100_def numeric_15_2_def exact_total_def
        sql_and_def sql_eq_def sql_ne_def is_true_def)

lemma exact_total_set_order_last_activity [simp]:
  "exact_total (set_order_last_activity tg now new) = exact_total new"
  "status (set_order_last_activity tg now new) = status new"
  "completed_at (set_order_last_activity tg now new) = completed_at new"
  by (simp_all add: set_order_last_activity_def exact_total_def)

lemma before_row_eq:
  "before_row tg now old new =
     (if \<bar>round2 (exact_total new)\<bar> < 10 ^ 13
      then Inr (new\<lparr>last_activity_at :=
                      if tg = INSERT then Some (coalesce (last_activity_at new) now)
                      else Some now,
                    total_amount := Some (round2 (exact_total new)),
                    completed_at :=
                      if status new = Completed \<and> (\<exists>r. old = Some r \<and> status r \<noteq> Completed)
                      then Some now else completed_at new\<rparr>)
      else Inl NumericFieldOverflow)"
  unfolding before_row_def update_order_total_eq
  by (cases old; cases "tg = INSERT")
     (simp_all add: set_order_last_activity_def exact_total_def)




lemma round2_cents [simp]:
  "round2 100 = 100" "round2 1050 = 1050" "round2 (2113111 / 200000) = 1057 / 100"
  by (simp_all add: round2_def round_half_away_def floor_eq_iff)




subsection \<open>Derivation engine: completion stamp\<close>

lemma exact_total_update [simp]:
  "exact_total (r\<lparr>status := s\<rparr>) = exact_total r"
  "exact_total (r\<lparr>last_activity_at := a\<rparr>) = exact_total r"
  "exact_total (r\<lparr>completed_at := c\<rparr>) = exact_total r"
  "exact_total (r\<lparr>total_amount := t\<rparr>) = exact_total r"
  "exact_total (r\<lparr>id_uuid := i\<rparr>) = exact_total r"
  by (simp_all add: exact_total_def)

lemma exact_total_order0 [simp]:
  "exact_total order0 = 100"
  by (simp add: exact_total_def order0_def coalesce_def)

lemma completed_at_before_row:
  "before_row tg now old new = Inr row \<Longrightarrow>
   completed_at row =
     (if status new = Completed \<and> (\<exists>r. old = Some r \<and> status r \<noteq> Completed)
      then Some now else completed_at new)"
  by (cases "\<bar>round2 (exact_total new)\<bar> < 10 ^ 13") (auto simp: before_row_eq)

text \<open>
  An order that is created directly in status completed gets no stamp: \<open>OLD.status\<close> is
  NULL on INSERT, the comparison \<open>OLD.status != 'completed'\<close> is NULL, and the \<open>IF\<close> is
  not taken.
\<close>

lemma insert_completed_not_stamped:
  "map_sum id completed_at (insert_row 5 (order0\<lparr>status := Completed\<rparr>)) = Inr None"
  by (simp add: insert_row_def before_row_eq order0_def exact_total_def coalesce_def)

text \<open>
  C2, as stated, fails: an order completed at time 2, reopened at time 3 and completed again
  at time 4 is stamped twice, and the second stamp replaces the first.
\<close>

theorem C2_counterexample_stamped_twice:
  "insert_row 1 order0 = Inr (order0\<lparr>last_activity_at := Some 1, total_amount := Some 100\<rparr>)
   \<and> map completed_at
        (row_history (order0\<lparr>last_activity_at := Some 1, total_amount := Some 100\<rparr>)
           [(2, \<lambda>r. r\<lparr>status := Completed\<rparr>),
            (3, \<lambda>r. r\<lparr>status := Pending\<rparr>),
            (4, \<lambda>r. r\<lparr>status := Completed\<rparr>)])
      = [None, Some 2, Some 2, Some 4]"
  by (simp add: insert_row_def update_row_def before_row_eq coalesce_def order0_def
      exact_total_def)

text \<open>
  C2, amended. On every update that succeeds and whose status changes to completed from
  another status, \<open>completed_at\<close> becomes the time of that write; on every other update
  that succeeds (the status stays completed, or the new status is not completed) the
  stored \<open>completed_at\<close> is the one the written row carries, so the trigger neither
  changes nor clears it.
\<close>

theorem C2_completed_at_on_update:
  assumes "before_row UPDATE now (Some old) new = Inr row"
  shows "(status new = Completed \<and> status old \<noteq> Completed \<longrightarrow> completed_at row = Some now)
       \<and> (\<not> (status new = Completed \<and> status old \<noteq> Completed) \<longrightarrow>
            completed_at row = completed_at new)"
  using completed_at_before_row [OF assms] by simp

theorem C2_completed_at_on_update_witness:
  "(\<exists>row. before_row UPDATE 9 (Some order0) (order0\<lparr>status := Completed\<rparr>) = Inr row
          \<and> completed_at row = Some 9)
   \<and> (\<exists>row. before_row UPDATE 12
               (Some (order0\<lparr>status := Completed, completed_at := Some 9\<rparr>))
               (order0\<lparr>status := Completed, completed_at := Some 9\<rparr>) = Inr row
          \<and> completed_at row = Some 9)"
proof -
  obtain r1 where r1: "before_row UPDATE 9 (Some order0) (order0\<lparr>status := Completed\<rparr>) = Inr r1"
    by (simp add: before_row_eq)
  obtain r2 where r2: "before_row UPDATE 12
               (Some (order0\<lparr>status := Completed, completed_at := Some 9\<rparr>))
               (order0\<lparr>status := Completed, completed_at := Some 9\<rparr>) = Inr r2"
    by (simp add: before_row_eq)
  show ?thesis
    using C2_completed_at_on_update [OF r1] C2_completed_at_on_update [OF r2] r1 r2
    by (simp add: order0_def)
qed

subsection \<open>Derivation engine: last activity\<close>

lemma last_activity_at_before_row:
  "before_row tg now old new = Inr row \<Longrightarrow>
   last_activity_at row =
     (if tg = INSERT then Some (coalesce (last_activity_at new) now) else Some now)"
  by (cases "\<bar>round2 (exact_total new)\<bar> < 10 ^ 13") (auto simp: before_row_eq)

lemma last_activity_at_after_update:
  "last_activity_at r = Some x \<Longrightarrow> x \<le> now \<Longrightarrow>
   \<exists>y. last_activity_at (case update_row now set_cols r of Inl e \<Rightarrow> r | Inr r' \<Rightarrow> r') = Some y
       \<and> x \<le> y \<and> y \<le> now"
  by (auto simp: update_row_def dest: last_activity_at_before_row split: sum.splits)

lemma last_activity_at_row_history_bounds:
  "last_activity_at r = Some x \<Longrightarrow> sorted (x # map fst ws) \<Longrightarrow>
   \<forall>a \<in> set (map last_activity_at (row_history r ws)). \<exists>y. a = Some y \<and> x \<le> y"
proof (induction r ws arbitrary: x rule: row_history.induct)
  case (1 r)
  then show ?case by simp
next
  case (2 r now set_cols ws)
  let ?r' = "case update_row now set_cols r of Inl e \<Rightarrow> r | Inr r' \<Rightarrow> r'"
  from 2(2,3) obtain y where y: "last_activity_at ?r' = Some y" "x \<le> y" "y \<le> now"
    using last_activity_at_after_update [of r x now set_cols] by auto
  with 2(3) have "sorted (y # map fst ws)"
    by auto
  from 2(1) [OF y(1) this] y(2) 2(2) show ?case
    by fastforce
qed

lemma last_activity_at_row_history_sorted:
  "last_activity_at r = Some x \<Longrightarrow> sorted (x # map fst ws) \<Longrightarrow>
   sorted_wrt (\<lambda>a b. \<exists>x y. a = Some x \<and> b = Some y \<and> x \<le> y)
     (map last_activity_at (row_history r ws))"
proof (induction r ws arbitrary: x rule: row_history.induct)
  case (1 r)
  then show ?case by simp
next
  case (2 r now set_cols ws)
  let ?r' = "case update_row now set_cols r of Inl e \<Rightarrow> r | Inr r' \<Rightarrow> r'"
  from 2(2,3) obtain y where y: "last_activity_at ?r' = Some y" "x \<le> y" "y \<le> now"
    using last_activity_at_after_update [of r x now set_cols] by auto
  with 2(3) have s: "sorted (y # map fst ws)"
    by auto
  have "\<forall>a \<in> set (map last_activity_at (row_history ?r' ws)). \<exists>z. a = Some z \<and> y \<le> z"
    using y(1) s by (rule last_activity_at_row_history_bounds)
  with 2(1) [OF y(1) s] y(2) 2(2) show ?case
    by fastforce
qed

text \<open>
  C7, as stated, fails: an insert at time 10 that carries \<open>last_activity_at = 100\<close> keeps
  100, and the update at time 20 stores 20.
\<close>

theorem C7_counterexample_supplied_value:
  "insert_row 10 (order0\<lparr>last_activity_at := Some 100\<rparr>)
     = Inr (order0\<lparr>last_activity_at := Some 100, total_amount := Some 100\<rparr>)
   \<and> map last_activity_at
        (row_history (order0\<lparr>last_activity_at := Some 100, total_amount := Some 100\<rparr>)
           [(20, \<lambda>r. r)])
      = [Some 100, Some 20]"
  by (simp add: insert_row_def update_row_def before_row_eq coalesce_def order0_def
      exact_total_def)

text \<open>
  C7, amended. When the clock does not go back between the writes and the insert carries
  no \<open>last_activity_at\<close>, or one that is not later than the time of the insert, every
  stored \<open>last_activity_at\<close> is at least the one stored by each earlier write.
\<close>

theorem C7_last_activity_monotone:
  assumes "sorted (t0 # map fst ws)"
    and "\<forall>v. last_activity_at new = Some v \<longrightarrow> v \<le> t0"
    and "insert_row t0 new = Inr r0"
  shows "sorted_wrt (\<lambda>a b. \<exists>x y. a = Some x \<and> b = Some y \<and> x \<le> y)
           (map last_activity_at (row_history r0 ws))"
proof -
  obtain v0 where v0: "last_activity_at r0 = Some v0" and le: "v0 \<le> t0"
    using assms(2) last_activity_at_before_row [OF assms(3) [unfolded insert_row_def]]
    by (cases "last_activity_at new") (simp_all add: coalesce_def)
  have "sorted (v0 # map fst ws)"
    using assms(1) le by auto
  with v0 show ?thesis
    by (rule last_activity_at_row_history_sorted)
qed

theorem C7_last_activity_monotone_witness:
  "sorted_wrt (\<lambda>a b. \<exists>x y. a = Some x \<and> b = Some y \<and> x \<le> y)
     (map last_activity_at
        (row_history (order0\<lparr>last_activity_at := Some 4, total_amount := Some 100\<rparr>)
           [(20, \<lambda>r. r), (20, \<lambda>r. r\<lparr>status := Shipped\<rparr>), (31, \<lambda>r. r)]))"
proof -
  have "insert_row 10 (order0\<lparr>last_activity_at := Some 4\<rparr>)
          = Inr (order0\<lparr>last_activity_at := Some 4, total_amount := Some 100\<rparr>)"
    by (simp add: insert_row_def before_row_eq coalesce_def order0_def exact_total_def)
  from C7_last_activity_monotone [OF _ _ this,
      of "[(20, \<lambda>r. r), (20, \<lambda>r. r\<lparr>status := Shipped\<rparr>), (31, \<lambda>r. r)]"]
  show ?thesis
    by (simp add: order0_def)
qed

subsection \<open>Customer rollup\<close>

lemma sql_update_map:
  "(\<And>r. r \<in> set rs \<Longrightarrow> wh r \<Longrightarrow> st r = Inr (g r)) \<Longrightarrow>
   sql_update wh st rs = Inr (map (\<lambda>r. if wh r then g r else r) rs)"
  by (induction rs) simp_all

lemma sql_update_error:
  "r \<in> set rs \<Longrightarrow> wh r \<Longrightarrow> st r = Inl e \<Longrightarrow> \<exists>e'. sql_update wh st rs = Inl e'"
  by (induction rs) (auto split: sum.splits)

lemma customer_matches_update [simp]:
  "customer_matches r (c\<lparr>total_orders := n, total_spent := s\<rparr>) = customer_matches r c"
  by (simp add: customer_matches_def)

lemma customer_matches_before_row:
  "before_row tg now old new = Inr row \<Longrightarrow>
   customer_matches (Some row) c = customer_matches (Some new) c"
  by (cases "\<bar>round2 (exact_total new)\<bar> < 10 ^ 13")
     (auto simp: before_row_eq customer_matches_def)

lemma order_amount_before_row:
  "before_row tg now old new = Inr row \<Longrightarrow> order_amount row = order_amount new"
  by (cases "\<bar>round2 (exact_total new)\<bar> < 10 ^ 13") (auto simp: before_row_eq)

lemma stats_increase_ok:
  "total_orders c \<noteq> Some 2147483647 \<Longrightarrow> (case total_orders c of None \<Rightarrow> True | Some n \<Rightarrow> int4 n) \<Longrightarrow>
   stats_increase a c =
     Inr (c\<lparr>total_orders := map_option (\<lambda>n. n + 1) (total_orders c),
            total_spent := num_add (total_spent c) a\<rparr>)"
  by (auto simp: stats_increase_def int4_add_def int4_def split: option.splits)


lemma stats_decrease_increase:
  "stats_increase (Some a) c = Inr c' \<Longrightarrow> (case total_orders c of None \<Rightarrow> True | Some n \<Rightarrow> int4 n) \<Longrightarrow>
   stats_decrease (Some a) c' = Inr c"
  by (cases c)
     (auto simp: stats_increase_def stats_decrease_def int4_add_def int4_sub_def int4_def
        num_add_def num_sub_def split: option.splits if_splits)


lemma sql_update_inverse:
  "(\<And>r. r \<in> set rs \<Longrightarrow> wh (f r) = wh r) \<Longrightarrow>
   (\<And>r. r \<in> set rs \<Longrightarrow> wh r \<Longrightarrow> st (f r) = Inr r) \<Longrightarrow>
   (\<And>r. r \<in> set rs \<Longrightarrow> \<not> wh r \<Longrightarrow> f r = r) \<Longrightarrow>
   sql_update wh st (map f rs) = Inr rs"
  by (induction rs) simp_all



lemma customers_typedD:
  "customers_typed customers \<Longrightarrow> c \<in> set customers \<Longrightarrow>
   (case total_orders c of None \<Rightarrow> True | Some n \<Rightarrow> int4 n)"
  by (simp add: customers_typed_def)

lemma update_customer_stats_insert:
  assumes "customers_typed customers"
    and "\<forall>c \<in> set customers. customer_matches (Some new) c \<longrightarrow> total_orders c \<noteq> Some 2147483647"
  shows "update_customer_stats INSERT old (Some new) customers =
     Inr (map (\<lambda>c. if customer_matches (Some new) c
                    then c\<lparr>total_orders := map_option (\<lambda>n. n + 1) (total_orders c),
                           total_spent := num_add (total_spent c) (Some (order_amount new))\<rparr>
                    else c) customers)"
  unfolding update_customer_stats_def using assms
  by (simp add: sql_update_map stats_increase_ok customers_typedD)

text \<open>
  C3. When the insert of the order succeeds and no matching customer is at the upper end
  of the \<open>integer\<close> range (the rollup of the insert then succeeds), the rollup of the
  insert followed by the rollup of the delete of the stored order gives back the
  customers table as it was before the insert: every \<open>total_orders\<close> and every
  \<open>total_spent\<close> has its earlier value.
\<close>

theorem C3_insert_then_delete:
  assumes "customers_typed customers"
    and "\<forall>c \<in> set customers. customer_matches (Some new) c \<longrightarrow> total_orders c \<noteq> Some 2147483647"
    and "insert_row now new = Inr stored"
  shows "\<exists>customers1.
           update_customer_stats INSERT None (Some new) customers = Inr customers1
           \<and> update_customer_stats DELETE (Some stored) None customers1 = Inr customers"
proof -
  let ?f = "\<lambda>c. if customer_matches (Some new) c
                 then c\<lparr>total_orders := map_option (\<lambda>n. n + 1) (total_orders c),
                        total_spent := num_add (total_spent c) (Some (order_amount new))\<rparr>
                 else c"
  have ins: "update_customer_stats INSERT None (Some new) customers = Inr (map ?f customers)"
    using assms(1,2) by (rule update_customer_stats_insert)
  have undo: "stats_decrease (Some (order_amount new)) (?f c) = Inr c"
    if "c \<in> set customers" "customer_matches (Some new) c" for c
  proof -
    have "stats_increase (Some (order_amount new)) c = Inr (?f c)"
      using that assms(1,2) by (simp add: stats_increase_ok customers_typedD)
    then show ?thesis
      using that assms(1) by (intro stats_decrease_increase) (simp_all add: customers_typedD)
  qed
  have "sql_update (customer_matches (Some new)) (stats_decrease (Some (order_amount new)))
          (map ?f customers) = Inr customers"
    by (rule sql_update_inverse) (use undo in simp_all)
  moreover have "customer_matches (Some stored) = customer_matches (Some new)"
    using assms(3) by (intro ext customer_matches_before_row) (simp add: insert_row_def)
  moreover have "order_amount stored = order_amount new"
    using assms(3) by (intro order_amount_before_row) (simp add: insert_row_def)
  ultimately have "update_customer_stats DELETE (Some stored) None (map ?f customers)
               = Inr customers"
    by (simp add: update_customer_stats_def)
  with ins show ?thesis by blast
qed

theorem C3_insert_then_delete_witness:
  "\<exists>customers1.
     update_customer_stats INSERT None (Some order0) customers0 = Inr customers1
     \<and> update_customer_stats DELETE
          (Some (order0\<lparr>last_activity_at := Some 3, total_amount := Some 100\<rparr>)) None customers1
         = Inr customers0"
proof -
  have "insert_row 3 order0 = Inr (order0\<lparr>last_activity_at := Some 3, total_amount := Some 100\<rparr>)"
    by (simp add: insert_row_def before_row_eq coalesce_def order0_def exact_total_def)
  from C3_insert_then_delete [OF _ _ this, of customers0] show ?thesis
    by (simp add: customers_typed_def customers0_def int4_def)
qed

text \<open>
  C4, as stated, fails: owner 7 has two customers named Asha, and the insert of one order
  of 100 for Asha adds one order and 100 to both rows.
\<close>

theorem C4_counterexample_two_rows:
  "update_customer_stats INSERT None (Some order0) customers0 =
     Inr [\<lparr>cust_id = 1, cust_user_id = 7, name = ''Asha'', email = None,
            total_orders = Some 3, total_spent = Some 150\<rparr>,
          \<lparr>cust_id = 2, cust_user_id = 7, name = ''Asha'', email = Some ''asha@example.com'',
            total_orders = Some 1, total_spent = Some 100\<rparr>,
          \<lparr>cust_id = 3, cust_user_id = 8, name = ''Asha'', email = None,
            total_orders = Some 5, total_spent = None\<rparr>]"
  by (simp add: update_customer_stats_def customers0_def order0_def customer_matches_def
      sql_and_def sql_or_def sql_eq_def is_true_def stats_increase_def int4_add_def int4_def
      num_add_def)

text \<open>
  C4, amended. The rollup of an insert adjusts every customer row of the order's owner
  whose name is the order's customer name or whose email is the order's customer email,
  all of them when several match, and no other row: each matching row gets one more order
  and the order amount more spent.
\<close>

theorem C4_insert_adjusts_every_match:
  assumes "customers_typed customers"
    and "\<forall>c \<in> set customers. customer_matches (Some new) c \<longrightarrow> total_orders c \<noteq> Some 2147483647"
  shows "update_customer_stats INSERT None (Some new) customers =
     Inr (map (\<lambda>c. if customer_matches (Some new) c
                    then c\<lparr>total_orders := map_option (\<lambda>n. n + 1) (total_orders c),
                           total_spent := num_add (total_spent c) (Some (order_amount new))\<rparr>
                    else c) customers)"
  using assms by (rule update_customer_stats_insert)

theorem C4_insert_adjusts_every_match_witness:
  "update_customer_stats INSERT None (Some order0) customers0 =
     Inr (map (\<lambda>c. if customer_matches (Some order0) c
                    then c\<lparr>total_orders := map_option (\<lambda>n. n + 1) (total_orders c),
                           total_spent := num_add (total_spent c) (Some (order_amount order0))\<rparr>
                    else c) customers0)"
  using C4_insert_adjusts_every_match [of customers0 order0]
  by (simp add: customers_typed_def customers0_def int4_def)




subsection \<open>Activity logger\<close>





lemma affected_rows_simps [simp]:
  "affected_rows [] = []"
  "affected_rows ((None, r) # ws) = affected_rows ws"
  "affected_rows ((Some r', r) # ws) = (Some r', r) # affected_rows ws"
  "affected_rows (xs @ ys) = affected_rows xs @ affected_rows ys"
  by (simp_all add: affected_rows_def)

lemma affected_rows_none [simp]:
  "affected_rows (map (\<lambda>r. (None, r)) rs) = []"
  by (induction rs) simp_all




lemma exec_insert_raises:
  "insert_row now new = Inl e \<Longrightarrow> exec triggers_final (Suc k) now (InsertOrder new) d = Raised e"
  by (simp add: triggers_final_def insert_row_def)

text \<open>
  An \<open>UPDATE\<close> of any number of orders, all accepted: one activity of type updated per
  affected row, with the row before and the row after, in the order of the rows, and the
  BEFORE triggers and the logger fired once per affected row. The affected rows are the
  rows that satisfy the condition of the statement.
\<close>

lemma run_all_done:
  "run_all (\<lambda>x d. Done (f x d)) xs d = Done (fold f xs d)"
  by (induction xs arbitrary: d) simp_all

lemma run_all_log_update:
  "run_all
     (\<lambda>(old, new') d'.
        run_all (\<lambda>s d''. exec triggers_final (Suc k) now s d'')
          (after_trigger triggers_final UPDATE now old new')
          (d'\<lparr>fired := fired d' @ [After UPDATE (id_uuid new')]\<rparr>))
     ws d =
   Done (d\<lparr>order_activities := order_activities d @
             map (\<lambda>(old, new').
                    \<lparr>act_order_id = id_uuid new', act_user_id = user_id new',
                     activity_type = ''updated'', description = ''Order updated'',
                     old_values = old, new_values = Some new'\<rparr>) ws,
           fired := fired d @ map (\<lambda>(old, new'). After UPDATE (id_uuid new')) ws\<rparr>)"
proof -
  let ?step = "\<lambda>(old, new') d'.
      d'\<lparr>fired := fired d' @ [After UPDATE (id_uuid new')],
         order_activities := order_activities d' @
           [\<lparr>act_order_id = id_uuid new', act_user_id = user_id new',
              activity_type = ''updated'', description = ''Order updated'',
              old_values = old, new_values = Some new'\<rparr>]\<rparr>"
  have "fold ?step ws d =
      d\<lparr>order_activities := order_activities d @
           map (\<lambda>(old, new').
                  \<lparr>act_order_id = id_uuid new', act_user_id = user_id new',
                   activity_type = ''updated'', description = ''Order updated'',
                   old_values = old, new_values = Some new'\<rparr>) ws,
         fired := fired d @ map (\<lambda>(old, new'). After UPDATE (id_uuid new')) ws\<rparr>"
    by (induction ws arbitrary: d) (simp_all add: case_prod_unfold)
  moreover have "run_all (\<lambda>w d'. Done (?step w d')) ws d = Done (fold ?step ws d)"
    by (rule run_all_done)
  ultimately show ?thesis
    by (simp add: triggers_final_def log_order_activity_def case_prod_unfold)
qed

lemma exec_update_rows_final:
  assumes "written_rows triggers_final now wh st (orders d) = Inr written"
  shows "exec triggers_final (Suc (Suc k)) now (UpdateOrders wh st) d =
     Done (d\<lparr>orders := map snd written,
             order_activities := order_activities d @
               map (\<lambda>(old, new').
                      \<lparr>act_order_id = id_uuid new', act_user_id = user_id new',
                       activity_type = ''updated'', description = ''Order updated'',
                       old_values = old, new_values = Some new'\<rparr>) (affected_rows written),
             fired := fired d @
               map (\<lambda>(old, new'). Before UPDATE (id_uuid new')) (affected_rows written) @
               map (\<lambda>(old, new'). After UPDATE (id_uuid new')) (affected_rows written)\<rparr>)"
  unfolding exec.simps assms Let_def sum.case run_all_log_update by simp

lemma written_rows_length:
  "written_rows tr now wh st rs = Inr written \<Longrightarrow>
     length written = length rs \<and>
     map fst written = map (\<lambda>r. if wh r then Some r else None) rs"
  by (induction rs arbitrary: written) (auto split: sum.splits if_splits)

lemma affected_rows_count:
  assumes "written_rows tr now wh st rs = Inr written"
  shows "length (affected_rows written) = length (filter wh rs)"
    and "map fst (affected_rows written) = map Some (filter wh rs)"
proof -
  have m: "map fst written = map (\<lambda>r. if wh r then Some r else None) rs"
    using written_rows_length [OF assms] by simp
  have "map fst (affected_rows written) = filter (\<lambda>x. x \<noteq> None) (map fst written)"
    by (simp add: affected_rows_def filter_map comp_def case_prod_unfold)
  also have "\<dots> = map Some (filter wh rs)"
    unfolding m by (induction rs) simp_all
  finally show "map fst (affected_rows written) = map Some (filter wh rs)" .
  then show "length (affected_rows written) = length (filter wh rs)"
    by (metis length_map)
qed



text \<open>
  Under the migration of 2025-09-21 the logger itself updates \<open>public.orders\<close>, which
  fires the logger again on the same row, without end: no bound on the nesting lets an
  insert, or an update of an existing order, finish. The later migration (part_012)
  removes that statement.
\<close>

lemma id_uuid_update_order_total:
  "update_order_total now old new = Inr row \<Longrightarrow> id_uuid row = id_uuid new"
  by (cases "\<bar>round2 (exact_total new)\<bar> < 10 ^ 13") (auto simp: update_order_total_eq)

lemma written_rows_affected:
  "written_rows tr now wh st rows = Inr ws \<Longrightarrow> (old', row) \<in> set (affected_rows ws) \<Longrightarrow>
   \<exists>r \<in> set rows. wh r \<and> old' = Some r
      \<and> before_triggers tr UPDATE now (Some r) (st r) = Inr row"
  by (induction rows arbitrary: ws) (auto simp: affected_rows_def split: sum.splits if_splits)

lemma written_rows_nonempty:
  "written_rows tr now wh st rows = Inr ws \<Longrightarrow> r \<in> set rows \<Longrightarrow> wh r \<Longrightarrow>
   affected_rows ws \<noteq> []"
  by (induction rows arbitrary: ws) (auto simp: affected_rows_def split: sum.splits if_splits)

lemma affected_rows_subset:
  "x \<in> set (affected_rows ws) \<Longrightarrow> snd x \<in> set (map snd ws)"
  by (auto simp: affected_rows_def)

lemma exec_20250921_update_never_done:
  assumes "\<exists>r \<in> set (orders d). id_uuid r = i"
  shows "exec triggers_20250921 k now
           (UpdateOrders (\<lambda>r. id_uuid r = i) (\<lambda>r. r\<lparr>last_activity_at := Some now\<rparr>)) d
         \<noteq> Done d'"
  using assms
proof (induction k arbitrary: d d')
  case 0
  show ?case by simp
next
  case (Suc k)
  let ?wh = "\<lambda>r. id_uuid r = i"
  let ?st = "\<lambda>r. r\<lparr>last_activity_at := Some now\<rparr>"
  show ?case
  proof (cases "written_rows triggers_20250921 now ?wh ?st (orders d)")
    case (Inl e)
    then show ?thesis by simp
  next
    case (Inr ws)
    from Suc.prems obtain r where r: "r \<in> set (orders d)" "id_uuid r = i"
      by blast
    with Inr have "affected_rows ws \<noteq> []"
      by (intro written_rows_nonempty [where wh = ?wh and r = r]) auto
    then obtain old' row xs where aff: "affected_rows ws = (old', row) # xs"
      by (cases "affected_rows ws") auto
    then have xin: "(old', row) \<in> set (affected_rows ws)"
      by simp
    from written_rows_affected [OF Inr this] obtain r0 where
      r0: "id_uuid r0 = i" "old' = Some r0"
        "before_triggers triggers_20250921 UPDATE now (Some r0) (?st r0) = Inr row"
      by blast
    have idrow: "id_uuid row = i"
      using r0 id_uuid_update_order_total [of now "Some r0" "?st r0" row]
      by (simp add: triggers_20250921_def)
    have mem: "row \<in> set (map snd ws)"
      using affected_rows_subset [OF xin] by simp
    have inner: "exec triggers_20250921 k now (UpdateOrders ?wh ?st) d'' \<noteq> Done d'''"
      if "orders d'' = map snd ws" for d'' d'''
      using that mem idrow by (intro Suc.IH) auto
    have after: "after_trigger triggers_20250921 UPDATE now old' row =
       [UpdateOrders ?wh ?st,
        InsertActivity \<lparr>act_order_id = id_uuid row, act_user_id = user_id row,
             activity_type = ''updated'', description = ''Order updated'',
             old_values = old', new_values = Some row\<rparr>]"
      using idrow by (simp add: triggers_20250921_def log_order_activity_20250921_def)
    let ?d2 = "d\<lparr>orders := map snd ws,
                  fired := fired d @
                    map (\<lambda>(old, new'). Before UPDATE (id_uuid new')) (affected_rows ws)
                    @ [After UPDATE (id_uuid row)]\<rparr>"
    have "exec triggers_20250921 k now (UpdateOrders ?wh ?st) ?d2 \<noteq> Done d'''" for d'''
      by (rule inner) simp
    then show ?thesis
      using Inr aff after
      by (simp add: Let_def split: outcome.splits)
  qed
qed

lemma exec_20250921_insert_never_done:
  "exec triggers_20250921 k now (InsertOrder new) d \<noteq> Done d'"
proof (cases k)
  case 0
  then show ?thesis by simp
next
  case (Suc j)
  show ?thesis
  proof (cases "update_order_total now None new")
    case (Inl e)
    then show ?thesis
      using Suc by (simp add: triggers_20250921_def)
  next
    case (Inr row)
    then have idrow: "id_uuid row = id_uuid new"
      by (rule id_uuid_update_order_total)
    have "exec triggers_20250921 j now
            (UpdateOrders (\<lambda>r. id_uuid r = id_uuid new) (\<lambda>r. r\<lparr>last_activity_at := Some now\<rparr>))
            d'' \<noteq> Done d'''"
      if "orders d'' = orders d @ [row]" for d'' d'''
      using that idrow by (intro exec_20250921_update_never_done) simp
    then show ?thesis
      using Suc Inr idrow
      by (simp add: Let_def triggers_20250921_def log_order_activity_20250921_def
          split: outcome.splits)
  qed
qed

subsection \<open>Order identifiers\<close>

lemma string_of_nat_digits [simp]:
  "string_of_nat (Suc 0) = ''1''" "string_of_nat (Suc (Suc 0)) = ''2''"
  by code_simp+

text \<open>
  C10 fails on the code. Two orders are created, ORD-001 and ORD-002; ORD-001 is deleted;
  the next order is numbered by the count of the orders that are left and is a second
  ORD-002.
\<close>

theorem C10_duplicate_after_delete:
  "map orderId
     (snd (createOrder (Some 7) (Inserted (3::nat) ''pending'') request0
        (deleteOrder ''ORD-001''
           (snd (createOrder (Some 7) (Inserted 2 ''pending'') request0
              (snd (createOrder (Some 7) (Inserted 1 ''pending'') request0 [])))))))
   = [''ORD-002'', ''ORD-002'']"
  by (simp add: createOrder_def deleteOrder_def next_orderId_def padStart_def Let_def
      numeral_2_eq_2)

subsection \<open>Export\<close>






subsection \<open>Analytics: the shape of the daily series\<close>

text \<open>Going back a day keeps a date valid and lowers its rank by 1 to 4.\<close>

lemma days_in_month_bounds: "28 \<le> days_in_month y m" "days_in_month y m \<le> 31"
  by (simp_all add: days_in_month_def)

lemma days_in_month_12 [simp]: "days_in_month y 12 = 31"
  by (simp add: days_in_month_def)

lemma prev_day_cases:
  obtains (same_month) "1 < day t" "prev_day t = t\<lparr>day := day t - 1\<rparr>"
  | (month_before) "\<not> 1 < day t" "1 < month t"
      "prev_day t = t\<lparr>month := month t - 1, day := days_in_month (year t) (month t - 1)\<rparr>"
  | (year_before) "\<not> 1 < day t" "\<not> 1 < month t"
      "prev_day t = t\<lparr>year := year t - 1, month := 12, day := 31\<rparr>"
  by (cases "1 < day t"; cases "1 < month t") (simp_all add: prev_day_def)

lemma prev_day_valid: "valid_date t \<Longrightarrow> valid_date (prev_day t)"
proof (cases t rule: prev_day_cases)
  case same_month
  assume "valid_date t"
  with same_month show ?thesis by (auto simp: valid_date_def)
next
  case month_before
  assume "valid_date t"
  with month_before days_in_month_bounds(1) [of "year t" "month t - 1"] show ?thesis
    by (auto simp: valid_date_def)
next
  case year_before
  assume "valid_date t"
  with year_before show ?thesis by (simp add: valid_date_def)
qed

lemma prev_day_rank:
  assumes "valid_date t"
  shows "date_rank t - 4 \<le> date_rank (prev_day t) \<and> date_rank (prev_day t) < date_rank t"
proof (cases t rule: prev_day_cases)
  case same_month
  with assms show ?thesis by (simp add: valid_date_def date_rank_def)
next
  case month_before
  with assms days_in_month_bounds [of "year t" "month t - 1"] show ?thesis
    by (simp add: valid_date_def date_rank_def int_ops)
next
  case year_before
  with assms have "month t = 1" "day t = 1"
    by (simp_all add: valid_date_def)
  with year_before show ?thesis by (simp add: date_rank_def)
qed

lemma subDays_valid: "valid_date t \<Longrightarrow> valid_date (subDays t n)"
  by (induction n) (simp_all add: prev_day_valid)

lemma subDays_rank:
  "valid_date t \<Longrightarrow>
   date_rank t - 4 * int n \<le> date_rank (subDays t n) \<and> date_rank (subDays t n) \<le> date_rank t - int n"
proof (induction n)
  case 0
  then show ?case by simp
next
  case (Suc n)
  then show ?case
    using prev_day_rank [OF subDays_valid [OF Suc.prems, of n]] by simp
qed

lemma subDays_add: "subDays t (n + m) = subDays (subDays t n) m"
  by (induction m) simp_all


text \<open>
  Two different days of a window of at most 93 days never share both their month and
  their day of the month.
\<close>

lemma month_day_distinct:
  assumes "valid_date now" and "i < j" and "j < 93"
  shows "\<not> (month (subDays now i) = month (subDays now j)
            \<and> day (subDays now i) = day (subDays now j))"
proof
  let ?a = "subDays now i" and ?b = "subDays now j"
  assume same: "month ?a = month ?b \<and> day ?a = day ?b"
  have b: "?b = subDays ?a (j - i)"
    using assms(2) subDays_add [of now i "j - i"] by simp
  have "date_rank ?a - 4 * int (j - i) \<le> date_rank ?b \<and> date_rank ?b \<le> date_rank ?a - int (j - i)"
    unfolding b by (rule subDays_rank) (rule subDays_valid [OF assms(1)])
  moreover have "date_rank ?a - date_rank ?b = 372 * (year ?a - year ?b)"
    using same by (simp add: date_rank_def)
  ultimately have "int (j - i) \<le> 372 * (year ?a - year ?b)
      \<and> 372 * (year ?a - year ?b) \<le> 4 * int (j - i)"
    by linarith
  moreover define k where "k = int (j - i)"
  moreover define dy where "dy = year ?a - year ?b"
  ultimately have d: "k \<le> 372 * dy" "372 * dy \<le> 4 * k"
    by simp_all
  have n: "0 < k" "k \<le> 92"
    using assms(2,3) by (simp_all add: k_def)
  from d(1) n(1) have "0 < 372 * dy"
    by linarith
  then have "1 \<le> dy"
    by simp
  with d(2) n(2) show False
    by linarith
qed

text \<open>The label \<open>MMM dd\<close> determines the month and the day of a valid date.\<close>

lemma month_abbr_inj:
  assumes "1 \<le> m" "m \<le> 12" "1 \<le> m'" "m' \<le> 12" "month_abbr m = month_abbr m'"
  shows "m = m'"
proof -
  let ?names = "[''Jan'', ''Feb'', ''Mar'', ''Apr'', ''May'', ''Jun'',
      ''Jul'', ''Aug'', ''Sep'', ''Oct'', ''Nov'', ''Dec'']"
  have "distinct ?names"
    by simp
  moreover have "m - 1 < length ?names" "m' - 1 < length ?names"
    using assms(2,4) by simp_all
  ultimately have "m - 1 = m' - 1"
    using assms(5) unfolding month_abbr_def by (simp only: nth_eq_iff_index_eq)
  with assms(1,3) show ?thesis
    by simp
qed

lemma month_abbr_length:
  assumes "1 \<le> m" "m \<le> 12"
  shows "length (month_abbr m) = 3"
proof -
  let ?names = "[''Jan'', ''Feb'', ''Mar'', ''Apr'', ''May'', ''Jun'',
      ''Jul'', ''Aug'', ''Sep'', ''Oct'', ''Nov'', ''Dec'']"
  have "\<forall>x \<in> set ?names. length x = 3"
    by simp
  moreover have "?names ! (m - 1) \<in> set ?names"
    using assms(2) by (intro nth_mem) simp
  ultimately show ?thesis
    unfolding month_abbr_def by blast
qed


lemma char_of_digit_inj:
  "a < 10 \<Longrightarrow> b < 10 \<Longrightarrow> char_of (48 + a) = char_of (48 + b) \<Longrightarrow> a = (b :: nat)"
  using inj_on_char_of_nat by (auto dest!: inj_onD [where x = "48 + a" and y = "48 + b"])

lemma two_digits:
  assumes "d < 100"
  shows "padStart 2 (CHR ''0'') (string_of_nat d) = [char_of (48 + d div 10), char_of (48 + d mod 10)]"
proof (cases "d < 10")
  case True
  moreover have "char_of (48 :: nat) = CHR ''0''"
    by code_simp
  ultimately show ?thesis
    by (simp add: string_of_nat.simps [of d] padStart_def numeral_2_eq_2)
next
  case False
  with assms have "d div 10 < 10"
    by simp
  with False show ?thesis
    by (simp add: string_of_nat.simps [of d] string_of_nat.simps [of "d div 10"] padStart_def)
qed

lemma two_digits_inj:
  assumes "d < 100" "d' < 100"
    and "padStart 2 (CHR ''0'') (string_of_nat d) = padStart 2 (CHR ''0'') (string_of_nat d')"
  shows "d = d'"
proof -
  from assms have "char_of (48 + d div 10) = char_of (48 + d' div 10)"
    "char_of (48 + d mod 10) = char_of (48 + d' mod 10)"
    by (simp_all add: two_digits)
  moreover have "d div 10 < 10" "d' div 10 < 10" "d mod 10 < 10" "d' mod 10 < 10"
    using assms(1,2) by simp_all
  ultimately have "d div 10 = d' div 10" "d mod 10 = d' mod 10"
    by (blast dest: char_of_digit_inj)+
  then show ?thesis
    by (metis div_mult_mod_eq)
qed

lemma format_MMM_dd_inj:
  assumes "valid_date t" "valid_date t'" "format_MMM_dd t = format_MMM_dd t'"
  shows "month t = month t' \<and> day t = day t'"
proof -
  have len: "length (month_abbr (month t)) = length (month_abbr (month t'))"
    using assms(1,2) by (simp add: month_abbr_length valid_date_def)
  from assms(3) have "month_abbr (month t) = month_abbr (month t')"
    and pad: "padStart 2 (CHR ''0'') (string_of_nat (day t))
              = padStart 2 (CHR ''0'') (string_of_nat (day t'))"
    unfolding format_MMM_dd_def using len by simp_all
  then have "month t = month t'"
    using assms(1,2) by (intro month_abbr_inj) (simp_all add: valid_date_def)
  moreover have "day t < 100" "day t' < 100"
    using assms(1,2) days_in_month_bounds(2) [of "year t" "month t"]
      days_in_month_bounds(2) [of "year t'" "month t'"]
    by (simp_all add: valid_date_def)
  then have "day t = day t'"
    using pad by (rule two_digits_inj)
  ultimately show ?thesis by simp
qed

text \<open>
  So the labels of the days of a window are distinct, and the initialisation loop adds
  one zero entry per day, in the order of the loop.
\<close>

lemma label_distinct:
  assumes "valid_date now" and "n \<le> 93"
  shows "distinct (map (\<lambda>i. format_MMM_dd (subDays now i)) [0..<n])"
proof -
  have "format_MMM_dd (subDays now i) \<noteq> format_MMM_dd (subDays now j)"
    if "i < j" "j < n" for i j
  proof
    assume "format_MMM_dd (subDays now i) = format_MMM_dd (subDays now j)"
    then have "month (subDays now i) = month (subDays now j)
        \<and> day (subDays now i) = day (subDays now j)"
      by (intro format_MMM_dd_inj subDays_valid assms(1))
    moreover have "j < 93"
      using that(2) assms(2) by simp
    ultimately show False
      using month_day_distinct [OF assms(1) that(1)] by blast
  qed
  then have "inj_on (\<lambda>i. format_MMM_dd (subDays now i)) (set [0..<n])"
    by (auto simp: inj_on_def) (metis nat_neq_iff)
  then show ?thesis
    by (simp add: distinct_map)
qed

lemma obj_set_fresh:
  "k \<notin> fst ` set kvs \<Longrightarrow> obj_set k v kvs = kvs @ [(k, v)]"
  by (induction kvs) auto

lemma map_fst_obj_set:
  "k \<in> fst ` set kvs \<Longrightarrow> map fst (obj_set k v kvs) = map fst kvs"
  by (induction kvs) force+

lemma map_of_obj_set:
  "map_of (obj_set k v kvs) = (map_of kvs)(k \<mapsto> v)"
  by (induction kvs) auto

lemma dailyData_init_eq:
  assumes "distinct (map (\<lambda>i. format_MMM_dd (subDays now i)) [0..<n])"
  shows "dailyData_init now n =
           map (\<lambda>i. (format_MMM_dd (subDays now i), \<lparr>revenue = 0, order_count = 0\<rparr>)) [0..<n]"
  using assms
proof (induction n)
  case 0
  then show ?case by (simp add: dailyData_init_def)
next
  case (Suc n)
  then have IH: "dailyData_init now n =
      map (\<lambda>i. (format_MMM_dd (subDays now i), \<lparr>revenue = 0, order_count = 0\<rparr>)) [0..<n]"
    by simp
  have fresh: "format_MMM_dd (subDays now n) \<notin> fst ` set (dailyData_init now n)"
    using Suc.prems unfolding IH by (auto simp: image_iff)
  have "dailyData_init now (Suc n) =
      obj_set (format_MMM_dd (subDays now n)) \<lparr>revenue = 0, order_count = 0\<rparr>
        (dailyData_init now n)"
    by (simp add: dailyData_init_def)
  then show ?case
    using fresh IH by (simp add: obj_set_fresh)
qed

text \<open>
  Counting an order never adds or moves a key: it only changes the entry of the label of
  the order's date, when there is one.
\<close>

lemma map_fst_dailyData_add:
  "map fst (dailyData_add order' dailyData) = map fst dailyData"
proof (cases "map_of dailyData (format_MMM_dd (orderDate order'))")
  case None
  then show ?thesis by (simp add: dailyData_add_def)
next
  case (Some b)
  then have "format_MMM_dd (orderDate order') \<in> fst ` set dailyData"
    by (force dest: map_of_SomeD)
  then show ?thesis
    using Some by (simp add: dailyData_add_def map_fst_obj_set)
qed

lemma map_fst_fold_dailyData_add:
  "map fst (fold dailyData_add os dailyData) = map fst dailyData"
  by (induction os arbitrary: dailyData) (simp_all add: map_fst_dailyData_add)

lemma map_of_dailyData_add:
  "map_of (dailyData_add order' dailyData) l =
     map_option (\<lambda>b. if format_MMM_dd (orderDate order') = l
                       then b\<lparr>revenue := revenue b
                                + or_number (totalAmount order') (orderAmount order'),
                              order_count := order_count b + 1\<rparr>
                       else b) (map_of dailyData l)"
  by (cases "map_of dailyData (format_MMM_dd (orderDate order'))"; cases "map_of dailyData l")
     (auto simp: dailyData_add_def map_of_obj_set)

lemma map_of_fold_dailyData_add:
  "map_of (fold dailyData_add os dailyData) l =
     map_option
       (\<lambda>b. b\<lparr>revenue := revenue b
                  + sum_list (map (\<lambda>r. or_number (totalAmount r) (orderAmount r))
                      (filter (\<lambda>r. format_MMM_dd (orderDate r) = l) os)),
                order_count := order_count b
                  + length (filter (\<lambda>r. format_MMM_dd (orderDate r) = l) os)\<rparr>)
       (map_of dailyData l)"
proof (induction os arbitrary: dailyData)
  case Nil
  then show ?case by (cases "map_of dailyData l") simp_all
next
  case (Cons r os)
  show ?case
    by (cases "map_of dailyData l")
       (simp_all add: Cons.IH map_of_dailyData_add algebra_simps)
qed

lemma daysBack_of_cases:
  "daysBack_of dateRange = 7 \<or> daysBack_of dateRange = 30 \<or> daysBack_of dateRange = 90"
  by (simp add: daysBack_of_def)

lemma daysBack_of_le: "daysBack_of dateRange \<le> 93"
  using daysBack_of_cases [of dateRange] by auto

lemma dailyData_init_window:
  assumes "valid_date now"
  shows "dailyData_init now (daysBack_of dateRange) =
           map (\<lambda>i. (format_MMM_dd (subDays now i), \<lparr>revenue = 0, order_count = 0\<rparr>))
             [0..<daysBack_of dateRange]"
  by (rule dailyData_init_eq) (rule label_distinct [OF assms daysBack_of_le])

text \<open>
  The shape of the series, for a valid \<open>now\<close>: its dates are the labels of the
  \<open>daysBack\<close> days that end today, oldest first, each once.
\<close>

lemma dailyRevenue_dates:
  assumes "valid_date now"
  shows "map fst (dailyRevenue dateRange now orders') =
           map (\<lambda>i. format_MMM_dd (subDays now i)) (rev [0..<daysBack_of dateRange])"
  by (simp add: dailyRevenue_def Let_def rev_map [symmetric] map_fst_fold_dailyData_add
      dailyData_init_window [OF assms] comp_def del: rev_map)

lemma dailyRevenue_length:
  assumes "valid_date now"
  shows "length (dailyRevenue dateRange now orders') = daysBack_of dateRange"
  using arg_cong [OF dailyRevenue_dates [OF assms, of dateRange orders'], of length] by simp

lemma dailyRevenue_distinct:
  assumes "valid_date now"
  shows "distinct (map fst (dailyRevenue dateRange now orders'))"
  unfolding dailyRevenue_dates [OF assms] rev_map [symmetric] distinct_rev
  by (rule label_distinct [OF assms daysBack_of_le])

lemma date_rank_less_iff:
  assumes "valid_date a" and "valid_date b"
  shows "date_rank a < date_rank b \<longleftrightarrow>
           year a < year b \<or> (year a = year b \<and>
             (month a < month b \<or> (month a = month b \<and> day a < day b)))"
proof -
  have "day a \<le> 31" "day b \<le> 31"
    using assms days_in_month_bounds(2) [of "year a" "month a"]
      days_in_month_bounds(2) [of "year b" "month b"]
    by (simp_all add: valid_date_def)
  moreover have "1 \<le> day a" "1 \<le> day b" "1 \<le> month a" "1 \<le> month b"
    "month a \<le> 12" "month b \<le> 12"
    using assms by (simp_all add: valid_date_def)
  ultimately show ?thesis
    unfolding date_rank_def by (cases "year a < year b"; cases "year b < year a") auto
qed

lemma subDays_rank_less:
  assumes "valid_date now" and "i < j"
  shows "date_rank (subDays now j) < date_rank (subDays now i)"
proof -
  define k where "k = j - i"
  have j: "j = i + k" and k: "0 < k"
    using assms(2) by (simp_all add: k_def)
  have "date_rank (subDays (subDays now i) k) \<le> date_rank (subDays now i) - int k"
    using subDays_rank [OF subDays_valid [OF assms(1)], of i k] by simp
  then show ?thesis
    unfolding j subDays_add using k by linarith
qed

lemma dailyRevenue_ascending:
  assumes "valid_date now"
  shows "sorted_wrt (\<lambda>a b. date_rank a < date_rank b)
           (map (subDays now) (rev [0..<daysBack_of dateRange]))"
proof -
  have "sorted_wrt (\<lambda>i j. date_rank (subDays now j) < date_rank (subDays now i))
          [0..<daysBack_of dateRange]"
    using sorted_wrt_upt [of 0 "daysBack_of dateRange"]
    by (rule sorted_wrt_mono_rel [rotated]) (simp add: subDays_rank_less [OF assms])
  then show ?thesis
    by (simp add: rev_map [symmetric] sorted_wrt_rev sorted_wrt_map del: rev_map)
qed

text \<open>
  The content of the series: an entry sums the orders of the filtered collection whose
  date has the label of the entry, whatever their year; it is zero when there is none.
\<close>

lemma dailyRevenue_bucket:
  assumes "valid_date now" and "(l, b) \<in> set (dailyRevenue dateRange now orders')"
  shows "b = \<lparr>revenue =
                 sum_list (map (\<lambda>r. or_number (totalAmount r) (orderAmount r))
                   (filter (\<lambda>r. format_MMM_dd (orderDate r) = l)
                      (filteredOrders now (daysBack_of dateRange) orders'))),
              order_count =
                 length (filter (\<lambda>r. format_MMM_dd (orderDate r) = l)
                   (filteredOrders now (daysBack_of dateRange) orders'))\<rparr>"
proof -
  let ?os = "filteredOrders now (daysBack_of dateRange) orders'"
  let ?init = "dailyData_init now (daysBack_of dateRange)"
  have "distinct (map fst (fold dailyData_add ?os ?init))"
    using dailyRevenue_distinct [OF assms(1), of dateRange orders']
    by (simp add: dailyRevenue_def Let_def rev_map [symmetric] del: rev_map)
  moreover have "(l, b) \<in> set (fold dailyData_add ?os ?init)"
    using assms(2) by (simp add: dailyRevenue_def Let_def)
  ultimately have "map_of (fold dailyData_add ?os ?init) l = Some b"
    by simp
  then obtain z where z: "map_of ?init l = Some z"
    and b: "b = z\<lparr>revenue := revenue z
                  + sum_list (map (\<lambda>r. or_number (totalAmount r) (orderAmount r))
                      (filter (\<lambda>r. format_MMM_dd (orderDate r) = l) ?os)),
                order_count := order_count z
                  + length (filter (\<lambda>r. format_MMM_dd (orderDate r) = l) ?os)\<rparr>"
    unfolding map_of_fold_dailyData_add by auto
  from z have "z = \<lparr>revenue = 0, order_count = 0\<rparr>"
    unfolding dailyData_init_window [OF assms(1)] by (auto dest: map_of_SomeD)
  with b show ?thesis by simp
qed

lemma dailyRevenue_zero_filled:
  assumes "valid_date now" and "(l, b) \<in> set (dailyRevenue dateRange now orders')"
    and "\<forall>r \<in> set (filteredOrders now (daysBack_of dateRange) orders').
           format_MMM_dd (orderDate r) \<noteq> l"
  shows "b = \<lparr>revenue = 0, order_count = 0\<rparr>"
proof -
  have "filter (\<lambda>r. format_MMM_dd (orderDate r) = l)
          (filteredOrders now (daysBack_of dateRange) orders') = []"
    using assms(3) by (simp add: filter_empty_conv)
  then show ?thesis
    using dailyRevenue_bucket [OF assms(1,2)] by simp
qed

subsection \<open>Analytics: an order of another year\<close>

lemma subDays_numeral:
  "subDays t (numeral k) = prev_day (subDays t (pred_numeral k))"
  "subDays t 1 = prev_day t"
  by (simp_all add: numeral_eq_Suc)

lemma replicate_numeral:
  "replicate (numeral k) x = x # replicate (pred_numeral k) x"
  by (simp add: numeral_eq_Suc)

lemma two_digit_strings:
  "string_of_nat (Suc 0) = ''1''" "string_of_nat 2 = ''2''" "string_of_nat 3 = ''3''"
  "string_of_nat 28 = ''28''" "string_of_nat 29 = ''29''" "string_of_nat 30 = ''30''"
  "string_of_nat 31 = ''31''"
  by code_simp+

lemma subDays_now0:
  "subDays now0 0 = now0"
  "subDays now0 (Suc 0) = now0\<lparr>day := 2\<rparr>"
  "prev_day now0 = now0\<lparr>day := 2\<rparr>"
  "subDays now0 2 = now0\<lparr>day := Suc 0\<rparr>"
  "subDays now0 3 = now0\<lparr>month := 10, day := 31\<rparr>"
  "subDays now0 4 = now0\<lparr>month := 10, day := 30\<rparr>"
  "subDays now0 5 = now0\<lparr>month := 10, day := 29\<rparr>"
  "subDays now0 6 = now0\<lparr>month := 10, day := 28\<rparr>"
  "subDays now0 7 = now0\<lparr>month := 10, day := 27\<rparr>"
  by (simp_all add: subDays_numeral prev_day_def now0_def days_in_month_def)

lemma labels_now0:
  "format_MMM_dd now0 = ''Nov 03''"
  "format_MMM_dd (now0\<lparr>day := 2\<rparr>) = ''Nov 02''"
  "format_MMM_dd (now0\<lparr>day := Suc 0\<rparr>) = ''Nov 01''"
  "format_MMM_dd (now0\<lparr>month := 10, day := 31\<rparr>) = ''Oct 31''"
  "format_MMM_dd (now0\<lparr>month := 10, day := 30\<rparr>) = ''Oct 30''"
  "format_MMM_dd (now0\<lparr>month := 10, day := 29\<rparr>) = ''Oct 29''"
  "format_MMM_dd (now0\<lparr>month := 10, day := 28\<rparr>) = ''Oct 28''"
  "format_MMM_dd (orderDate next_year_order) = ''Nov 03''"
  by (simp_all add: format_MMM_dd_def month_abbr_def padStart_def two_digit_strings now0_def
      next_year_order_def replicate_numeral)


lemma dailyData_init_now0:
  "dailyData_init now0 7 =
     [(''Nov 03'', \<lparr>revenue = 0, order_count = 0\<rparr>),
      (''Nov 02'', \<lparr>revenue = 0, order_count = 0\<rparr>),
      (''Nov 01'', \<lparr>revenue = 0, order_count = 0\<rparr>),
      (''Oct 31'', \<lparr>revenue = 0, order_count = 0\<rparr>),
      (''Oct 30'', \<lparr>revenue = 0, order_count = 0\<rparr>),
      (''Oct 29'', \<lparr>revenue = 0, order_count = 0\<rparr>),
      (''Oct 28'', \<lparr>revenue = 0, order_count = 0\<rparr>)]"
proof -
  have "[0..<7] = [0, 1, 2, 3, 4, 5, 6::nat]"
    by code_simp
  then show ?thesis
    by (simp add: dailyData_init_def subDays_now0 labels_now0)
qed

lemma filteredOrders_now0:
  "filteredOrders now0 7 [next_year_order] = [next_year_order]"
  unfolding filteredOrders_def Let_def subDays_now0
  by (simp add: time_ge_def now0_def next_year_order_def)

text \<open>
  C8 fails on the code. The key of a bucket has no year and the window has no upper end:
  with the 7-day window at noon of 3 November 2026, the only order is dated 3 November
  2027, and the bucket of 3 November 2026, a day without any order, holds its 250.
\<close>

theorem C8_next_year_order_counted:
  "dailyRevenue ''7d'' now0 [next_year_order] =
     [(''Oct 28'', \<lparr>revenue = 0, order_count = 0\<rparr>),
      (''Oct 29'', \<lparr>revenue = 0, order_count = 0\<rparr>),
      (''Oct 30'', \<lparr>revenue = 0, order_count = 0\<rparr>),
      (''Oct 31'', \<lparr>revenue = 0, order_count = 0\<rparr>),
      (''Nov 01'', \<lparr>revenue = 0, order_count = 0\<rparr>),
      (''Nov 02'', \<lparr>revenue = 0, order_count = 0\<rparr>),
      (''Nov 03'', \<lparr>revenue = 250, order_count = 1\<rparr>)]"
proof -
  have "totalAmount next_year_order = None" "orderAmount next_year_order = 250"
    by (simp_all add: next_year_order_def)
  then show ?thesis
    by (simp add: dailyRevenue_def daysBack_of_def filteredOrders_now0 dailyData_init_now0
        dailyData_add_def labels_now0 or_number_def)
qed

end
